theory Spec2Isabelle
  imports Main
begin

section \<open>repo_to_agent/cli.py: the repository indexer\<close>

text \<open>
  A shallow embedding of \<^verbatim>\<open>src/repo_to_agent/cli.py\<close>. Python strings are lists of
  characters (one \<^typ>\<open>char\<close> stands for one character of a Python \<^verbatim>\<open>str\<close>, so
  \<^const>\<open>length\<close> is Python's \<^verbatim>\<open>len\<close>), Python integers are \<^typ>\<open>int\<close>, the
  metrics dictionary and the logger's output are an explicit state that every function
  takes and returns, and the file system the program reads is an explicit tree.
\<close>

subsection \<open>Policy tables (lines 11-24)\<close>

definition SKIP_DIRS :: "string set" where
  "SKIP_DIRS = {''node_modules'', ''.venv'', ''__pycache__'', ''.git''}"

definition SKIP_EXTS :: "string set" where
  "SKIP_EXTS = {''.xlsx'', ''.zip'', ''.jpg'', ''.jpeg'', ''.png'', ''.gif'',
                ''.exe'', ''.dll'', ''.pyc'', ''.so''}"

definition SKIP_FILES :: "string set" where
  "SKIP_FILES = {''.gitignore''}"

subsection \<open>Strings and paths (the parts of str and pathlib the program uses)\<close>

text \<open>
  \<^verbatim>\<open>str.rfind\<close>: the highest index of the character, or -1.
\<close>

fun rfind :: "string \<Rightarrow> char \<Rightarrow> int" where
  "rfind [] c = -1"
| "rfind (x # xs) c =
     (let r = rfind xs c in if 0 \<le> r then r + 1 else if x = c then 0 else -1)"

text \<open>
  \<^verbatim>\<open>str.lower\<close> on the ASCII letters. A character outside ASCII is lower-cased by
  Python to characters outside ASCII (the Kelvin sign apart, whose image k occurs in no
  entry of \<^const>\<open>SKIP_EXTS\<close>), so membership of a lower-cased suffix in
  \<^const>\<open>SKIP_EXTS\<close> is decided by the ASCII letters alone.
\<close>

definition lower_char :: "char \<Rightarrow> char" where
  "lower_char c =
     (if (65::nat) \<le> of_char c \<and> of_char c \<le> (90::nat)
      then char_of (of_char c + (32::nat)) else c)"

definition lower :: "string \<Rightarrow> string" where
  "lower s = map lower_char s"

definition startswith :: "string \<Rightarrow> string \<Rightarrow> bool" where
  "startswith s p = (take (length p) s = p)"

text \<open>
  \<^verbatim>\<open>sep.join(xs)\<close>: the separator between consecutive elements only.
\<close>

fun join :: "string \<Rightarrow> string list \<Rightarrow> string" where
  "join sep [] = []"
| "join sep [x] = x"
| "join sep (x # y # ys) = x @ sep @ join sep (y # ys)"

text \<open>
  \<^verbatim>\<open>content[:n]\<close> for a Python integer \<open>n\<close>: a negative bound counts from the end.
\<close>

definition slice_to :: "string \<Rightarrow> int \<Rightarrow> string" where
  "slice_to s n = (if 0 \<le> n then take (nat n) s else take (nat (int (length s) + n)) s)"

text \<open>
  A path met by the walk is the resolved root (a string) and the components below it.
  \<^verbatim>\<open>Path(root) / name\<close> appends a component, \<^verbatim>\<open>str(path)\<close> joins with the
  separator, \<^verbatim>\<open>path.relative_to(repo_path)\<close> keeps the components, and
  \<^verbatim>\<open>path.name\<close> is the last component. Names of directory entries are not empty
  and hold no separator.
\<close>

type_synonym path = "string \<times> string list"

definition pjoin :: "path \<Rightarrow> string \<Rightarrow> path" where
  "pjoin p n = (fst p, snd p @ [n])"

definition join2 :: "string \<Rightarrow> string \<Rightarrow> string" where
  "join2 a c = (if a = ''/'' then a @ c else a @ ''/'' @ c)"

definition pstr :: "path \<Rightarrow> string" where
  "pstr p = foldl join2 (fst p) (snd p)"

definition pname :: "path \<Rightarrow> string" where
  "pname p = (if snd p = [] then drop (nat (rfind (fst p) (CHR ''/'') + 1)) (fst p)
              else last (snd p))"

definition rel_str :: "path \<Rightarrow> string" where
  "rel_str p = (if snd p = [] then ''.'' else join ''/'' (snd p))"

text \<open>
  \<^verbatim>\<open>PurePath.suffix\<close> as pathlib defines it: the name from its last dot on, when that
  dot is neither the first nor the last character of the name; otherwise empty. (From
  Python 3.14 on pathlib differs on names that end with a dot or start with several
  dots; no claim below depends on such a name.)
\<close>

definition suffix :: "string \<Rightarrow> string" where
  "suffix name =
     (let i = rfind name (CHR ''.'')
      in if 0 < i \<and> i < int (length name) - 1 then drop (nat i) name else [])"

subsection \<open>The logger (lines 26-73)\<close>

datatype jv = JStr string | JInt int

text \<open>
  A \<^verbatim>\<open>LogRecord\<close>: its level, message, logger name, the function that called the
  logger, and the keyword arguments stored in its attribute \<^verbatim>\<open>extra\<close>.
\<close>

record log_record =
  levelno :: int
  msg :: string
  rname :: string
  funcName :: string
  extra :: "(string \<times> jv) list"

definition DEBUG :: int where "DEBUG = 10"
definition INFO :: int where "INFO = 20"
definition WARNING :: int where "WARNING = 30"
definition ERROR :: int where "ERROR = 40"
definition CRITICAL :: int where "CRITICAL = 50"

function digits :: "nat \<Rightarrow> string" where
  "digits n =
     (if n < 10 then [char_of (48 + n)]
      else digits (n div 10) @ [char_of (48 + n mod 10)])"
  by pat_completeness auto
termination
  by (relation "measure id") auto

definition str_int :: "int \<Rightarrow> string" where
  "str_int i = (if i < 0 then CHR ''-'' # digits (nat (- i)) else digits (nat i))"

text \<open>
  \<^verbatim>\<open>logging.getLevelName\<close>, which gives a record its \<^verbatim>\<open>levelname\<close>.
\<close>

definition levelname :: "int \<Rightarrow> string" where
  "levelname l =
     (if l = CRITICAL then ''CRITICAL''
      else if l = ERROR then ''ERROR''
      else if l = WARNING then ''WARNING''
      else if l = INFO then ''INFO''
      else if l = DEBUG then ''DEBUG''
      else if l = 0 then ''NOTSET''
      else ''Level '' @ str_int l)"

definition map_severity :: "int \<Rightarrow> int" where
  "map_severity level =
     (case map_of [(DEBUG, 5), (INFO, 9), (WARNING, 13), (ERROR, 17), (CRITICAL, 21)] level of
        Some n \<Rightarrow> n
      | None \<Rightarrow> 1)"

text \<open>
  \<^verbatim>\<open>OTELJsonFormatter.format\<close>: the dictionary handed to \<^verbatim>\<open>json.dumps\<close>. The
  trace id (generated once when the module is loaded) and the clock's reading are
  parameters. \<^verbatim>\<open>base.update(record.extra)\<close> is the override of maps (the
  keyword arguments are a dictionary: their keys are distinct).
\<close>

definition base_fields :: "string \<Rightarrow> string \<Rightarrow> log_record \<Rightarrow> (string \<times> jv) list" where
  "base_fields trace_id now r =
     [(''timestamp'', JStr (now @ ''Z'')),
      (''severity_text'', JStr (levelname (levelno r))),
      (''severity_number'', JInt (map_severity (levelno r))),
      (''message'', JStr (msg r)),
      (''trace_id'', JStr trace_id),
      (''logger.name'', JStr (rname r)),
      (''code.function'', JStr (funcName r))]"

definition format :: "string \<Rightarrow> string \<Rightarrow> log_record \<Rightarrow> (string \<rightharpoonup> jv)" where
  "format trace_id now r = map_of (base_fields trace_id now r) ++ map_of (extra r)"

subsection \<open>The run's state\<close>

text \<open>
  The metrics dictionary (\<^verbatim>\<open>char_count\<close> is absent until the end of the run) and
  the records the logger has emitted so far.
\<close>

record world =
  indexed :: int
  skipped :: int
  errors :: int
  char_count :: "int option"
  records :: "log_record list"

text \<open>
  The logger's level is INFO: a call below it emits nothing.
\<close>

definition emit :: "int \<Rightarrow> string \<Rightarrow> string \<Rightarrow> (string \<times> jv) list \<Rightarrow> world \<Rightarrow> world" where
  "emit lvl fn message kwargs w =
     (if INFO \<le> lvl
      then w\<lparr>records := records w @
             [\<lparr>levelno = lvl, msg = message, rname = ''repo_indexer'',
               funcName = fn, extra = kwargs\<rparr>]\<rparr>
      else w)"

definition log_info :: "string \<Rightarrow> (string \<times> jv) list \<Rightarrow> world \<Rightarrow> world" where
  "log_info message kwargs w = emit INFO ''log_info'' message kwargs w"

definition log_warning :: "string \<Rightarrow> (string \<times> jv) list \<Rightarrow> world \<Rightarrow> world" where
  "log_warning message kwargs w = emit WARNING ''log_warning'' message kwargs w"

definition log_error :: "string \<Rightarrow> (string \<times> jv) list \<Rightarrow> world \<Rightarrow> world" where
  "log_error message kwargs w = emit ERROR ''log_error'' message kwargs w"

subsection \<open>The file system and the content-type guesser\<close>

text \<open>
  What \<^verbatim>\<open>os.walk\<close> and \<^verbatim>\<open>read_text\<close> see. A non-directory entry has a name and
  the outcome of \<^verbatim>\<open>read_text(encoding="utf-8")\<close>: the decoded text, or the string of
  the exception raised. A directory entry has a name and its listing, in the order
  \<^verbatim>\<open>scandir\<close> yields it; \<open>Unlistable\<close> is a directory entry whose own
  \<^verbatim>\<open>scandir\<close> raises \<^verbatim>\<open>OSError\<close> (permission denied, say). A symbolic link to a
  directory behaves in the same way: \<^verbatim>\<open>os.walk\<close> names it among the directories and
  does not follow it.
\<close>

datatype entry =
  File string "string + string"
| Dir string "entry list"
| Unlistable string

fun is_dir :: "entry \<Rightarrow> bool" where
  "is_dir (File n c) = False"
| "is_dir (Dir n es) = True"
| "is_dir (Unlistable n) = True"

fun entry_name :: "entry \<Rightarrow> string" where
  "entry_name (File n c) = n"
| "entry_name (Dir n es) = n"
| "entry_name (Unlistable n) = n"

text \<open>
  The two lists \<^verbatim>\<open>os.walk\<close> yields for a directory: the names of its directories,
  and its other entries (kept with what reading them gives), both in listing order.
\<close>

definition dirs_of :: "entry list \<Rightarrow> string list" where
  "dirs_of es = map entry_name (filter is_dir es)"

fun files_of :: "entry list \<Rightarrow> (string \<times> (string + string)) list" where
  "files_of [] = []"
| "files_of (File n c # es) = (n, c) # files_of es"
| "files_of (Dir n sub # es) = files_of es"
| "files_of (Unlistable n # es) = files_of es"

text \<open>
  \<^verbatim>\<open>mimetypes.guess_type\<close> is a collaborator outside the repository: a parameter,
  from the string of the path to the guessed type, if any.
\<close>

type_synonym guesser = "string \<Rightarrow> string option"

subsection \<open>Classifier and content reader (lines 76-113)\<close>

definition is_binary_file :: "guesser \<Rightarrow> path \<Rightarrow> world \<Rightarrow> bool \<times> world" where
  "is_binary_file guess_type file_path w =
     (case guess_type (pstr file_path) of
        Some mime_type \<Rightarrow>
          if \<not> startswith mime_type ''text''
          then (True, log_info ''Skipping binary file''
                        [(''file_path'', JStr (pstr file_path))] w)
          else (False, w)
      | None \<Rightarrow> (False, w))"

definition should_skip_file :: "guesser \<Rightarrow> path \<Rightarrow> world \<Rightarrow> bool \<times> world" where
  "should_skip_file guess_type file_path w =
     (if lower (suffix (pname file_path)) \<in> SKIP_EXTS
      then (True, (log_info ''Skipping by extension''
                     [(''file_name'', JStr (pname file_path)),
                      (''file_path'', JStr (pstr file_path))] w)
                  \<lparr>skipped := skipped w + 1\<rparr>)
      else if pname file_path \<in> SKIP_FILES
      then (True, (log_info ''Skipping by filename''
                     [(''file_name'', JStr (pname file_path)),
                      (''file_path'', JStr (pstr file_path))] w)
                  \<lparr>skipped := skipped w + 1\<rparr>)
      else (case is_binary_file guess_type file_path w of
              (True, w') \<Rightarrow> (True, w'\<lparr>skipped := skipped w' + 1\<rparr>)
            | (False, w') \<Rightarrow> (False, w')))"

definition marker :: string where
  "marker = CHR ''\<newline>'' # ''...[truncated]''"

text \<open>
  \<^verbatim>\<open>read_text_file\<close>. Its second argument is what \<^verbatim>\<open>file_path.read_text\<close> does
  on this file: \<open>Inr\<close> the decoded text, \<open>Inl\<close> the string of the exception.
\<close>

definition read_text_file ::
  "path \<Rightarrow> string + string \<Rightarrow> world \<Rightarrow> int \<Rightarrow> string option \<times> world" where
  "read_text_file file_path rd w max_chars =
     (case rd of
        Inr content \<Rightarrow>
          if int (length content) > max_chars
          then (Some (slice_to content max_chars @ marker),
                log_info ''Truncating large file'' [(''file_path'', JStr (pstr file_path))] w)
          else (Some content, w)
      | Inl e \<Rightarrow>
          (None, (log_warning ''Unreadable file''
                    [(''file_path'', JStr (pstr file_path)), (''error'', JStr e)] w)
                 \<lparr>errors := errors w + 1\<rparr>))"

subsection \<open>The indexer (lines 116-161)\<close>

text \<open>
  Lines 126-130 at one directory: the directory names left after pruning, and one
  record for each pruned name. Python walks the set \<^verbatim>\<open>skipped_dirs\<close> in an order of
  its own; the model takes the listing's order, each name once.
\<close>

fun log_skipped_dirs :: "path \<Rightarrow> string list \<Rightarrow> world \<Rightarrow> world" where
  "log_skipped_dirs root [] w = w"
| "log_skipped_dirs root (d # ds) w =
     log_skipped_dirs root ds
       (log_info ''Skipping directory''
          [(''file_name'', JStr d), (''file_path'', JStr (pstr (pjoin root d)))] w)"

definition prune_dirs :: "path \<Rightarrow> string list \<Rightarrow> world \<Rightarrow> string list \<times> world" where
  "prune_dirs root original_dirs w =
     (let dirs = filter (\<lambda>d. d \<notin> SKIP_DIRS) original_dirs;
          skipped_dirs = remdups (filter (\<lambda>d. d \<notin> set dirs) original_dirs)
      in (dirs, log_skipped_dirs root skipped_dirs w))"

definition section_of :: "path \<Rightarrow> string \<Rightarrow> string" where
  "section_of file_path content = ''### '' @ rel_str file_path @ [CHR ''\<newline>''] @ content"

text \<open>
  Lines 133-147, the body of the loop over the files of one directory.
\<close>

definition index_file ::
  "guesser \<Rightarrow> path \<Rightarrow> string \<times> (string + string) \<Rightarrow> world \<times> string list \<Rightarrow> world \<times> string list" where
  "index_file guess_type root f st =
     (let file_path = pjoin root (fst f)
      in case should_skip_file guess_type file_path (fst st) of
           (True, w1) \<Rightarrow> (w1, snd st)
         | (False, w1) \<Rightarrow>
             (case read_text_file file_path (snd f) w1 5000 of
                (None, w2) \<Rightarrow> (w2, snd st)
              | (Some content, w2) \<Rightarrow>
                  ((log_info ''Indexed file''
                      [(''file_path'', JStr (pstr file_path)),
                       (''file_name'', JStr (fst f)),
                       (''file_rel_path'', JStr (rel_str file_path))] w2)
                   \<lparr>indexed := indexed w2 + 1\<rparr>,
                   snd st @ [section_of file_path content])))"

fun index_files ::
  "guesser \<Rightarrow> path \<Rightarrow> (string \<times> (string + string)) list \<Rightarrow> world \<times> string list \<Rightarrow> world \<times> string list" where
  "index_files guess_type root [] st = st"
| "index_files guess_type root (f # fs) st =
     index_files guess_type root fs (index_file guess_type root f st)"

text \<open>
  The loop of line 125. \<^verbatim>\<open>os.walk\<close> is called top-down with no \<^verbatim>\<open>onerror\<close>: it
  yields a directory (the loop body runs: pruning, then the files), then walks the
  directories left in \<^verbatim>\<open>dirs\<close>, in order, each before the next. A directory whose
  \<^verbatim>\<open>scandir\<close> raises is passed over by \<^verbatim>\<open>os.walk\<close> without a yield.
\<close>

fun walk :: "guesser \<Rightarrow> path \<Rightarrow> entry list \<Rightarrow> world \<times> string list \<Rightarrow> world \<times> string list"
  and descend ::
    "guesser \<Rightarrow> path \<Rightarrow> string list \<Rightarrow> entry list \<Rightarrow> world \<times> string list \<Rightarrow> world \<times> string list"
where
  "walk guess_type root es st =
     (let pr = prune_dirs root (dirs_of es) (fst st)
      in descend guess_type root (fst pr) es
           (index_files guess_type root (files_of es) (snd pr, snd st)))"
| "descend guess_type root dirs [] st = st"
| "descend guess_type root dirs (File n c # es) st = descend guess_type root dirs es st"
| "descend guess_type root dirs (Unlistable n # es) st = descend guess_type root dirs es st"
| "descend guess_type root dirs (Dir n sub # es) st =
     (if n \<in> set dirs
      then descend guess_type root dirs es (walk guess_type (pjoin root n) sub st)
      else descend guess_type root dirs es st)"

text \<open>
  \<^verbatim>\<open>index_repo\<close>. The first argument after the guesser is the resolved root, the
  second the root's listing (\<open>None\<close> when the root cannot be listed: \<^verbatim>\<open>os.walk\<close>
  then yields nothing). The result is the document and the final state.
\<close>

definition index_repo :: "guesser \<Rightarrow> string \<Rightarrow> entry list option \<Rightarrow> string \<times> world" where
  "index_repo guess_type repo_path listing =
     (let w0 = \<lparr>indexed = 0, skipped = 0, errors = 0, char_count = None, records = []\<rparr>;
          w1 = log_info ''Indexing repository''
                 [(''event_name'', JStr ''repo_scan_start''), (''file_path'', JStr repo_path)] w0;
          st = (case listing of
                  None \<Rightarrow> (w1, [])
                | Some es \<Rightarrow> walk guess_type (repo_path, []) es (w1, []));
          result = join [CHR ''\<newline>''] (snd st);
          w2 = (fst st)\<lparr>char_count := Some (int (length result))\<rparr>;
          w3 = log_info ''Indexing complete''
                 [(''event_name'', JStr ''repo_scan_end''),
                  (''file_indexed'', JInt (indexed w2)),
                  (''file_skipped'', JInt (skipped w2)),
                  (''file_errors'', JInt (errors w2)),
                  (''char_count'', JInt (int (length result)))] w2
      in (result, w3))"

subsection \<open>The specification's vocabulary\<close>

text \<open>
  The definitions below are not translations of the source: they say, in the
  specification's words, what the claims compare the program with.
\<close>

text \<open>
  The skip rules in their priority order: extension, exact name, guessed content type.
\<close>

datatype reason = Extension | Filename | Binary

definition skip_reason :: "guesser \<Rightarrow> path \<Rightarrow> reason option" where
  "skip_reason g fp =
     (if lower (suffix (pname fp)) \<in> SKIP_EXTS then Some Extension
      else if pname fp \<in> SKIP_FILES then Some Filename
      else (case g (pstr fp) of
              None \<Rightarrow> None
            | Some m \<Rightarrow> if startswith m ''text'' then None else Some Binary))"

fun skip_event :: "reason \<Rightarrow> path \<Rightarrow> log_record" where
  "skip_event Extension fp =
     \<lparr>levelno = INFO, msg = ''Skipping by extension'', rname = ''repo_indexer'',
      funcName = ''log_info'',
      extra = [(''file_name'', JStr (pname fp)), (''file_path'', JStr (pstr fp))]\<rparr>"
| "skip_event Filename fp =
     \<lparr>levelno = INFO, msg = ''Skipping by filename'', rname = ''repo_indexer'',
      funcName = ''log_info'',
      extra = [(''file_name'', JStr (pname fp)), (''file_path'', JStr (pstr fp))]\<rparr>"
| "skip_event Binary fp =
     \<lparr>levelno = INFO, msg = ''Skipping binary file'', rname = ''repo_indexer'',
      funcName = ''log_info'', extra = [(''file_path'', JStr (pstr fp))]\<rparr>"

text \<open>
  The five outcomes of a visited file.
\<close>

datatype outcome = Indexed | Skipped reason | ReadError

definition classify :: "guesser \<Rightarrow> path \<times> (string + string) \<Rightarrow> outcome" where
  "classify g v =
     (case skip_reason g (fst v) of
        Some r \<Rightarrow> Skipped r
      | None \<Rightarrow> (case snd v of Inl e \<Rightarrow> ReadError | Inr c \<Rightarrow> Indexed))"

fun is_skipped :: "outcome \<Rightarrow> bool" where
  "is_skipped (Skipped r) = True"
| "is_skipped Indexed = False"
| "is_skipped ReadError = False"

text \<open>
  The files visited, in traversal order: at each directory its own files in listing
  order, then the files below each directory that is not pruned and can be listed.
\<close>

fun visited :: "path \<Rightarrow> entry list \<Rightarrow> (path \<times> (string + string)) list"
  and visited_below :: "path \<Rightarrow> entry list \<Rightarrow> (path \<times> (string + string)) list"
where
  "visited root es =
     map (\<lambda>f. (pjoin root (fst f), snd f)) (files_of es) @ visited_below root es"
| "visited_below root [] = []"
| "visited_below root (File n c # es) = visited_below root es"
| "visited_below root (Unlistable n # es) = visited_below root es"
| "visited_below root (Dir n sub # es) =
     (if n \<in> SKIP_DIRS then [] else visited (pjoin root n) sub) @ visited_below root es"

definition files_visited :: "string \<Rightarrow> entry list option \<Rightarrow> (path \<times> (string + string)) list" where
  "files_visited repo_path listing =
     (case listing of None \<Rightarrow> [] | Some es \<Rightarrow> visited (repo_path, []) es)"

text \<open>
  The content kept for a text under the default limit of 5000 characters, and the
  section of a file that was read.
\<close>

definition stored :: "string \<Rightarrow> string" where
  "stored content = (if length content > 5000 then take 5000 content @ marker else content)"

definition section_for :: "path \<times> (string + string) \<Rightarrow> string" where
  "section_for v =
     (case snd v of
        Inr c \<Rightarrow> ''### '' @ rel_str (fst v) @ [CHR ''\<newline>''] @ stored c
      | Inl e \<Rightarrow> [])"

definition sections :: "guesser \<Rightarrow> (path \<times> (string + string)) list \<Rightarrow> string list" where
  "sections g vs = map section_for (filter (\<lambda>v. classify g v = Indexed) vs)"

text \<open>
  The counters and the file index of a state, and the effect one visited file has on
  them according to its outcome.
\<close>

definition tally :: "world \<times> string list \<Rightarrow> int \<times> int \<times> int \<times> int option \<times> string list" where
  "tally st = (indexed (fst st), skipped (fst st), errors (fst st), char_count (fst st), snd st)"

fun bump ::
  "guesser \<Rightarrow> path \<times> (string + string) \<Rightarrow> int \<times> int \<times> int \<times> int option \<times> string list
    \<Rightarrow> int \<times> int \<times> int \<times> int option \<times> string list" where
  "bump g v (i, s, e, cc, fi) =
     (case classify g v of
        Indexed \<Rightarrow> (i + 1, s, e, cc, fi @ [section_for v])
      | Skipped r \<Rightarrow> (i, s + 1, e, cc, fi)
      | ReadError \<Rightarrow> (i, s, e + 1, cc, fi))"

text \<open>
  The records of the reader and of the pruning step.
\<close>

definition truncating_event :: "path \<Rightarrow> log_record" where
  "truncating_event fp =
     \<lparr>levelno = INFO, msg = ''Truncating large file'', rname = ''repo_indexer'',
      funcName = ''log_info'', extra = [(''file_path'', JStr (pstr fp))]\<rparr>"

definition unreadable_event :: "path \<Rightarrow> string \<Rightarrow> log_record" where
  "unreadable_event fp e =
     \<lparr>levelno = WARNING, msg = ''Unreadable file'', rname = ''repo_indexer'',
      funcName = ''log_warning'',
      extra = [(''file_path'', JStr (pstr fp)), (''error'', JStr e)]\<rparr>"

definition skip_dir_event :: "path \<Rightarrow> string \<Rightarrow> log_record" where
  "skip_dir_event root d =
     \<lparr>levelno = INFO, msg = ''Skipping directory'', rname = ''repo_indexer'',
      funcName = ''log_info'',
      extra = [(''file_name'', JStr d), (''file_path'', JStr (pstr (pjoin root d)))]\<rparr>"

text \<open>
  The severity mapping in the specification's terms, from the textual level.
\<close>

definition severity_of_text :: "string \<Rightarrow> int" where
  "severity_of_text t =
     (if t = ''DEBUG'' then 5
      else if t = ''INFO'' then 9
      else if t = ''WARNING'' then 13
      else if t = ''ERROR'' then 17
      else if t = ''CRITICAL'' then 21
      else 1)"






text \<open>
  The pruned directories a walk meets, each with the directory that lists it, in the
  order the walk meets them; and the records that report a pruned directory.
\<close>

fun pruned_dirs :: "path \<Rightarrow> entry list \<Rightarrow> (path \<times> string) list"
  and pruned_below :: "path \<Rightarrow> entry list \<Rightarrow> (path \<times> string) list"
where
  "pruned_dirs root es =
     map (Pair root) (remdups (filter (\<lambda>d. d \<in> SKIP_DIRS) (dirs_of es)))
     @ pruned_below root es"
| "pruned_below root [] = []"
| "pruned_below root (File n c # es) = pruned_below root es"
| "pruned_below root (Unlistable n # es) = pruned_below root es"
| "pruned_below root (Dir n sub # es) =
     (if n \<in> SKIP_DIRS then [] else pruned_dirs (pjoin root n) sub) @ pruned_below root es"



text \<open>
  The keys the program passes to the logger as keyword arguments, and the records
  whose keyword arguments use these keys only.
\<close>

definition extra_keys :: "string list" where
  "extra_keys = [''event_name'', ''file_path'', ''file_name'', ''file_rel_path'', ''error'',
                 ''file_indexed'', ''file_skipped'', ''file_errors'', ''char_count'']"

definition program_record :: "log_record \<Rightarrow> bool" where
  "program_record r = list_all (\<lambda>k. k \<in> set extra_keys) (map fst (extra r))"

definition all_program_records :: "world \<Rightarrow> bool" where
  "all_program_records w = list_all program_record (records w)"

text \<open>
  Two guessers for the concrete runs below: one that never guesses, and one that
  guesses from the suffix as \<^verbatim>\<open>mimetypes\<close> does for these three suffixes.
\<close>

definition no_guess :: guesser where
  "no_guess p = None"

definition ext_guess :: guesser where
  "ext_guess p =
     (if lower (suffix p) = ''.txt'' then Some ''text/plain''
      else if lower (suffix p) = ''.png'' then Some ''image/png''
      else if lower (suffix p) = ''.json'' then Some ''application/json''
      else None)"

definition w0 :: world where
  "w0 = \<lparr>indexed = 0, skipped = 0, errors = 0, char_count = None, records = []\<rparr>"

section \<open>Properties\<close>

subsection \<open>The logger and the state\<close>

lemma log_info_eq:
  "log_info m k w = w\<lparr>records := records w @
      [\<lparr>levelno = INFO, msg = m, rname = ''repo_indexer'', funcName = ''log_info'',
        extra = k\<rparr>]\<rparr>"
  by (simp add: log_info_def emit_def)

lemma log_warning_eq:
  "log_warning m k w = w\<lparr>records := records w @
      [\<lparr>levelno = WARNING, msg = m, rname = ''repo_indexer'', funcName = ''log_warning'',
        extra = k\<rparr>]\<rparr>"
  by (simp add: log_warning_def emit_def INFO_def WARNING_def)

subsection \<open>Classifier\<close>

lemma should_skip_file_eq:
  "should_skip_file g fp w =
     (case skip_reason g fp of
        None \<Rightarrow> (False, w)
      | Some r \<Rightarrow>
          (True, w\<lparr>skipped := skipped w + 1, records := records w @ [skip_event r fp]\<rparr>))"
  by (simp add: should_skip_file_def skip_reason_def is_binary_file_def log_info_eq
      split: option.splits)

lemma is_binary_file_fst:
  "fst (is_binary_file g fp w) = (\<exists>m. g (pstr fp) = Some m \<and> \<not> startswith m ''text'')"
  by (simp add: is_binary_file_def split: option.splits)

lemma rfind_absent: "c \<notin> set xs \<Longrightarrow> rfind xs c = -1"
  by (induction xs) (auto simp: Let_def)

lemma suffix_dotfile: "CHR ''.'' \<notin> set rest \<Longrightarrow> suffix (CHR ''.'' # rest) = []"
  by (simp add: suffix_def rfind_absent Let_def)

subsection \<open>Content reader\<close>

lemma read_text_file_Inr:
  "read_text_file fp (Inr c) w 5000 =
     (Some (stored c),
      if length c > 5000 then w\<lparr>records := records w @ [truncating_event fp]\<rparr> else w)"
  by (simp add: read_text_file_def stored_def slice_to_def log_info_eq truncating_event_def)

lemma read_text_file_Inl:
  "read_text_file fp (Inl e) w mc =
     (None, w\<lparr>errors := errors w + 1, records := records w @ [unreadable_event fp e]\<rparr>)"
  by (simp add: read_text_file_def log_warning_eq unreadable_event_def)

subsection \<open>The counters and the file index along the walk\<close>

lemma tally_index_file:
  "tally (index_file g root f st) = bump g (pjoin root (fst f), snd f) (tally st)"
proof (cases "skip_reason g (pjoin root (fst f))")
  case None
  show ?thesis
  proof (cases "snd f")
    case (Inl e)
    with None show ?thesis
      by (simp add: tally_def index_file_def should_skip_file_eq read_text_file_Inl
          classify_def Let_def)
  next
    case (Inr c)
    with None show ?thesis
      by (simp add: tally_def index_file_def should_skip_file_eq read_text_file_Inr
          classify_def Let_def log_info_eq section_of_def section_for_def)
  qed
next
  case (Some r)
  then show ?thesis
    by (simp add: tally_def index_file_def should_skip_file_eq classify_def Let_def)
qed

lemma tally_index_files:
  "tally (index_files g root fs st) =
     fold (bump g) (map (\<lambda>f. (pjoin root (fst f), snd f)) fs) (tally st)"
  by (induction fs arbitrary: st) (simp_all add: tally_index_file)

lemma records_log_skipped_dirs:
  "log_skipped_dirs root ds w = w\<lparr>records := records w @ map (skip_dir_event root) ds\<rparr>"
  by (induction ds arbitrary: w) (simp_all add: log_info_eq skip_dir_event_def)

lemma prune_dirs_tally: "tally (snd (prune_dirs root ds w), fi) = tally (w, fi)"
  by (simp add: prune_dirs_def Let_def records_log_skipped_dirs tally_def)

lemma prune_dirs_fst: "fst (prune_dirs root ds w) = filter (\<lambda>d. d \<notin> SKIP_DIRS) ds"
  by (simp add: prune_dirs_def Let_def)

lemma tally_walk_descend:
  "tally (walk g root es st) = fold (bump g) (visited root es) (tally st)"
  "(\<forall>n sub. Dir n sub \<in> set es \<longrightarrow> (n \<in> set dirs) = (n \<notin> SKIP_DIRS)) \<Longrightarrow>
   tally (descend g root dirs es st) = fold (bump g) (visited_below root es) (tally st)"
proof (induction g root es st and g root dirs es st rule: walk_descend.induct)
  case (1 g root es st)
  have d: "\<forall>n sub. Dir n sub \<in> set es \<longrightarrow>
      (n \<in> set (fst (prune_dirs root (dirs_of es) (fst st)))) = (n \<notin> SKIP_DIRS)"
    by (force simp: prune_dirs_fst dirs_of_def)
  have "tally (snd (prune_dirs root (dirs_of es) (fst st)), snd st) = tally st"
    by (simp add: prune_dirs_tally)
  with 1[OF refl d] show ?case
    by (simp add: Let_def tally_index_files)
qed auto

declare walk.simps [simp del] visited.simps [simp del]

lemma fold_bump:
  "fold (bump g) vs (i, s, e, cc, fi) =
     (i + int (length (filter (\<lambda>v. classify g v = Indexed) vs)),
      s + int (length (filter (\<lambda>v. is_skipped (classify g v)) vs)),
      e + int (length (filter (\<lambda>v. classify g v = ReadError) vs)),
      cc, fi @ sections g vs)"
proof (induction vs arbitrary: i s e fi)
  case Nil
  then show ?case by (simp add: sections_def)
next
  case (Cons v vs)
  show ?case
    by (cases "classify g v") (simp_all add: Cons sections_def)
qed

lemma outcome_partition:
  "length (filter (\<lambda>v. classify g v = Indexed) vs)
   + length (filter (\<lambda>v. is_skipped (classify g v)) vs)
   + length (filter (\<lambda>v. classify g v = ReadError) vs) = length vs"
proof (induction vs)
  case Nil
  then show ?case by simp
next
  case (Cons v vs)
  then show ?case by (cases "classify g v") simp_all
qed

lemma skipped_by_reason:
  "length (filter (\<lambda>v. is_skipped (classify g v)) vs) =
     length (filter (\<lambda>v. classify g v = Skipped Extension) vs)
   + length (filter (\<lambda>v. classify g v = Skipped Filename) vs)
   + length (filter (\<lambda>v. classify g v = Skipped Binary) vs)"
proof (induction vs)
  case Nil
  then show ?case by simp
next
  case (Cons v vs)
  show ?case
  proof (cases "classify g v")
    case (Skipped r)
    with Cons show ?thesis by (cases r) simp_all
  qed (simp_all add: Cons)
qed

lemma index_repo_tally:
  "tally (snd (index_repo g rp listing), sections g (files_visited rp listing)) =
     (int (length (filter (\<lambda>v. classify g v = Indexed) (files_visited rp listing))),
      int (length (filter (\<lambda>v. is_skipped (classify g v)) (files_visited rp listing))),
      int (length (filter (\<lambda>v. classify g v = ReadError) (files_visited rp listing))),
      Some (int (length (fst (index_repo g rp listing)))),
      sections g (files_visited rp listing))
   \<and> fst (index_repo g rp listing) =
       join [CHR ''\<newline>''] (sections g (files_visited rp listing))"
proof (cases listing)
  case None
  then show ?thesis
    by (simp add: index_repo_def files_visited_def tally_def log_info_eq Let_def sections_def)
next
  case (Some es)
  define st where "st = walk g (rp, []) es
     (log_info ''Indexing repository''
        [(''event_name'', JStr ''repo_scan_start''), (''file_path'', JStr rp)]
        \<lparr>indexed = 0, skipped = 0, errors = 0, char_count = None, records = []\<rparr>, [])"
  have "tally st = fold (bump g) (visited (rp, []) es)
      (tally (log_info ''Indexing repository''
        [(''event_name'', JStr ''repo_scan_start''), (''file_path'', JStr rp)]
        \<lparr>indexed = 0, skipped = 0, errors = 0, char_count = None, records = []\<rparr>, []))"
    unfolding st_def by (rule tally_walk_descend(1))
  also have "tally (log_info ''Indexing repository''
        [(''event_name'', JStr ''repo_scan_start''), (''file_path'', JStr rp)]
        \<lparr>indexed = 0, skipped = 0, errors = 0, char_count = None, records = []\<rparr>, [])
      = (0, 0, 0, None, [])"
    by (simp add: tally_def log_info_eq)
  finally have t: "tally st =
     (int (length (filter (\<lambda>v. classify g v = Indexed) (visited (rp, []) es))),
      int (length (filter (\<lambda>v. is_skipped (classify g v)) (visited (rp, []) es))),
      int (length (filter (\<lambda>v. classify g v = ReadError) (visited (rp, []) es))),
      None, sections g (visited (rp, []) es))"
    by (simp add: fold_bump)
  have r: "index_repo g rp listing =
     (join [CHR ''\<newline>''] (snd st),
      log_info ''Indexing complete''
        [(''event_name'', JStr ''repo_scan_end''),
         (''file_indexed'', JInt (indexed (fst st))),
         (''file_skipped'', JInt (skipped (fst st))),
         (''file_errors'', JInt (errors (fst st))),
         (''char_count'', JInt (int (length (join [CHR ''\<newline>''] (snd st)))))]
        ((fst st)\<lparr>char_count := Some (int (length (join [CHR ''\<newline>''] (snd st))))\<rparr>))"
    unfolding st_def using Some by (simp add: index_repo_def Let_def)
  from t show ?thesis
    unfolding r using Some by (simp add: tally_def files_visited_def log_info_eq)
qed

subsection \<open>Directories that are pruned or cannot be listed\<close>

lemma descend_append:
  "descend g root dirs (xs @ ys) st = descend g root dirs ys (descend g root dirs xs st)"
proof (induction xs arbitrary: st)
  case Nil
  then show ?case by simp
next
  case (Cons e xs)
  then show ?case by (cases e) simp_all
qed

lemma files_of_append: "files_of (xs @ ys) = files_of xs @ files_of ys"
proof (induction xs)
  case Nil
  then show ?case by simp
next
  case (Cons e xs)
  then show ?case by (cases e) simp_all
qed

lemma walk_Nil: "walk g root [] st = st"
  by (simp add: walk.simps prune_dirs_def dirs_of_def Let_def)


lemma walk_unlistable:
  "walk g root (es1 @ Unlistable n # es2) st = walk g root (es1 @ Dir n [] # es2) st"
proof -
  have d: "dirs_of (es1 @ Unlistable n # es2) = dirs_of (es1 @ Dir n [] # es2)"
    by (simp add: dirs_of_def)
  have f: "files_of (es1 @ Unlistable n # es2) = files_of (es1 @ Dir n [] # es2)"
    by (simp add: files_of_append)
  show ?thesis
    unfolding walk.simps [of g root "es1 @ Unlistable n # es2"]
      walk.simps [of g root "es1 @ Dir n [] # es2"]
    by (simp add: d f Let_def descend_append walk_Nil)
qed


lemma records_prune_dirs:
  "records (snd (prune_dirs root ds w)) =
     records w @ map (skip_dir_event root) (remdups (filter (\<lambda>d. d \<in> SKIP_DIRS) ds))"
proof -
  have "filter (\<lambda>d. d \<notin> set (filter (\<lambda>d. d \<notin> SKIP_DIRS) ds)) ds
      = filter (\<lambda>d. d \<in> SKIP_DIRS) ds"
    by (rule filter_cong) auto
  then show ?thesis
    by (simp add: prune_dirs_def Let_def records_log_skipped_dirs)
qed

subsection \<open>The formatter and the records of a run\<close>

lemma map_severity_text: "map_severity l = severity_of_text (levelname l)"
  by (simp add: map_severity_def severity_of_text_def levelname_def DEBUG_def INFO_def
      WARNING_def ERROR_def CRITICAL_def)

lemma format_override: "map_of (extra r) k = Some v \<Longrightarrow> format tid now r k = Some v"
  by (simp add: format_def map_add_def)

lemma format_base:
  "map_of (extra r) k = None \<Longrightarrow> format tid now r k = map_of (base_fields tid now r) k"
  by (simp add: format_def map_add_def)

lemma program_record_no_clash:
  assumes "program_record r" and "k \<notin> set extra_keys"
  shows "map_of (extra r) k = None"
proof -
  from assms have "k \<notin> fst ` set (extra r)"
    by (auto simp: program_record_def list_all_iff)
  then show ?thesis by (simp add: map_of_eq_None_iff)
qed

lemma program_record_format:
  assumes "program_record r"
  shows "format tid now r ''trace_id'' = Some (JStr tid)"
    and "format tid now r ''severity_text'' = Some (JStr (levelname (levelno r)))"
    and "format tid now r ''severity_number'' =
           Some (JInt (severity_of_text (levelname (levelno r))))"
proof -
  have "map_of (extra r) ''trace_id'' = None" "map_of (extra r) ''severity_text'' = None"
    "map_of (extra r) ''severity_number'' = None"
    using assms by (simp_all add: program_record_no_clash extra_keys_def)
  then show "format tid now r ''trace_id'' = Some (JStr tid)"
    and "format tid now r ''severity_text'' = Some (JStr (levelname (levelno r)))"
    and "format tid now r ''severity_number'' =
           Some (JInt (severity_of_text (levelname (levelno r))))"
    by (simp_all add: format_base base_fields_def map_severity_text)
qed

lemma apr_log_info:
  "all_program_records w \<Longrightarrow> list_all (\<lambda>k. k \<in> set extra_keys) (map fst kw) \<Longrightarrow>
   all_program_records (log_info m kw w)"
  by (simp add: all_program_records_def log_info_eq program_record_def)

lemma apr_should_skip_file:
  "all_program_records w \<Longrightarrow> all_program_records (snd (should_skip_file g fp w))"
proof (cases "skip_reason g fp")
  case None
  assume "all_program_records w"
  with None show ?thesis by (simp add: should_skip_file_eq)
next
  case (Some r)
  assume "all_program_records w"
  with Some show ?thesis
    by (cases r)
      (simp_all add: should_skip_file_eq all_program_records_def program_record_def
        extra_keys_def)
qed

lemma apr_read_text_file:
  "all_program_records w \<Longrightarrow> all_program_records (snd (read_text_file fp rd w 5000))"
  by (cases rd)
    (simp_all add: read_text_file_Inl read_text_file_Inr all_program_records_def
      program_record_def extra_keys_def unreadable_event_def truncating_event_def)

lemma apr_index_file:
  assumes "all_program_records (fst st)"
  shows "all_program_records (fst (index_file g root f st))"
proof -
  obtain b w1 where s: "should_skip_file g (pjoin root (fst f)) (fst st) = (b, w1)"
    by (cases "should_skip_file g (pjoin root (fst f)) (fst st)")
  with apr_should_skip_file [OF assms, of g "pjoin root (fst f)"]
  have w1: "all_program_records w1" by simp
  obtain c w2 where r: "read_text_file (pjoin root (fst f)) (snd f) w1 5000 = (c, w2)"
    by (cases "read_text_file (pjoin root (fst f)) (snd f) w1 5000")
  with apr_read_text_file [OF w1, of "pjoin root (fst f)" "snd f"]
  have w2: "all_program_records w2" by simp
  have i: "all_program_records
     ((log_info ''Indexed file''
         [(''file_path'', JStr (pstr (pjoin root (fst f)))),
          (''file_name'', JStr (fst f)),
          (''file_rel_path'', JStr (rel_str (pjoin root (fst f))))] w2)
      \<lparr>indexed := indexed w2 + 1\<rparr>)"
    using apr_log_info [OF w2, of "[(''file_path'', JStr (pstr (pjoin root (fst f)))),
          (''file_name'', JStr (fst f)),
          (''file_rel_path'', JStr (rel_str (pjoin root (fst f))))]" "''Indexed file''"]
    by (simp add: all_program_records_def extra_keys_def)
  show ?thesis
    using s r w1 w2 i
    by (cases b; cases c) (simp_all add: index_file_def Let_def)
qed

lemma apr_index_files:
  "all_program_records (fst st) \<Longrightarrow> all_program_records (fst (index_files g root fs st))"
  by (induction fs arbitrary: st) (simp_all add: apr_index_file)

lemma program_record_skip_dir_event: "program_record (skip_dir_event root d)"
  by (simp add: program_record_def skip_dir_event_def extra_keys_def)

lemma apr_prune_dirs:
  "all_program_records w \<Longrightarrow> all_program_records (snd (prune_dirs root ds w))"
  by (auto simp add: all_program_records_def records_prune_dirs list_all_iff
      program_record_skip_dir_event)

lemma apr_walk_descend:
  "all_program_records (fst st) \<Longrightarrow> all_program_records (fst (walk g root es st))"
  "all_program_records (fst st) \<Longrightarrow> all_program_records (fst (descend g root dirs es st))"
proof (induction g root es st and g root dirs es st rule: walk_descend.induct)
  case (1 g root es st)
  have "all_program_records (fst (index_files g root (files_of es)
      (snd (prune_dirs root (dirs_of es) (fst st)), snd st)))"
    by (rule apr_index_files) (simp add: apr_prune_dirs "1.prems")
  with "1.IH" [OF refl] show ?case
    by (simp add: walk.simps Let_def)
qed simp_all

lemma apr_index_repo: "all_program_records (snd (index_repo g rp listing))"
proof -
  define w1 where "w1 = log_info ''Indexing repository''
      [(''event_name'', JStr ''repo_scan_start''), (''file_path'', JStr rp)]
      \<lparr>indexed = 0, skipped = 0, errors = 0, char_count = None, records = []\<rparr>"
  define st where "st = (case listing of None \<Rightarrow> (w1, [])
      | Some es \<Rightarrow> walk g (rp, []) es (w1, []))"
  define w2 where
    "w2 = (fst st)\<lparr>char_count := Some (int (length (join [CHR ''\<newline>''] (snd st))))\<rparr>"
  have "all_program_records w1"
    unfolding w1_def
    by (rule apr_log_info) (simp_all add: all_program_records_def extra_keys_def)
  then have "all_program_records (fst st)"
    unfolding st_def by (cases listing) (simp_all add: apr_walk_descend(1))
  then have "all_program_records w2"
    by (simp add: w2_def all_program_records_def)
  then have "all_program_records (log_info ''Indexing complete''
      [(''event_name'', JStr ''repo_scan_end''),
       (''file_indexed'', JInt (indexed w2)),
       (''file_skipped'', JInt (skipped w2)),
       (''file_errors'', JInt (errors w2)),
       (''char_count'', JInt (int (length (join [CHR ''\<newline>''] (snd st)))))] w2)"
    by (rule apr_log_info) (simp add: extra_keys_def)
  moreover have "snd (index_repo g rp listing) = log_info ''Indexing complete''
      [(''event_name'', JStr ''repo_scan_end''),
       (''file_indexed'', JInt (indexed w2)),
       (''file_skipped'', JInt (skipped w2)),
       (''file_errors'', JInt (errors w2)),
       (''char_count'', JInt (int (length (join [CHR ''\<newline>''] (snd st)))))] w2"
    by (cases listing) (simp_all add: index_repo_def Let_def w1_def st_def w2_def)
  ultimately show ?thesis by simp
qed

subsection \<open>The records of a walk and the pruned directories\<close>







lemma pruned_below_append:
  "pruned_below root (xs @ ys) = pruned_below root xs @ pruned_below root ys"
proof (induction xs)
  case Nil
  then show ?case by simp
next
  case (Cons e xs)
  then show ?case by (cases e) simp_all
qed


lemma pruned_dirs_pruned_dir:
  "n \<in> SKIP_DIRS \<Longrightarrow>
   pruned_dirs root (es1 @ Dir n sub # es2) = pruned_dirs root (es1 @ Dir n sub' # es2)"
  by (simp add: pruned_dirs.simps dirs_of_def pruned_below_append)




















section \<open>The claims\<close>

text \<open>
  C1 (as amended). For every run, the three counters \<open>indexed\<close>, \<open>skipped\<close> and
  \<open>errors\<close> together count the files visited (the files of the directories that are
  neither pruned nor unlistable): each visited file has exactly one outcome among
  indexed, skipped by extension, skipped by name, skipped as binary and read error,
  \<open>indexed\<close> counts the first, \<open>skipped\<close> the three kinds of skip, \<open>errors\<close> the last.
\<close>

theorem metrics_partition:
  "indexed (snd (index_repo g rp listing)) + skipped (snd (index_repo g rp listing))
     + errors (snd (index_repo g rp listing)) = int (length (files_visited rp listing))
   \<and> indexed (snd (index_repo g rp listing)) =
       int (length (filter (\<lambda>v. classify g v = Indexed) (files_visited rp listing)))
   \<and> skipped (snd (index_repo g rp listing)) =
       int (length (filter (\<lambda>v. classify g v = Skipped Extension) (files_visited rp listing)))
       + int (length (filter (\<lambda>v. classify g v = Skipped Filename) (files_visited rp listing)))
       + int (length (filter (\<lambda>v. classify g v = Skipped Binary) (files_visited rp listing)))
   \<and> errors (snd (index_repo g rp listing)) =
       int (length (filter (\<lambda>v. classify g v = ReadError) (files_visited rp listing)))"
proof -
  let ?vs = "files_visited rp listing"
  let ?w = "snd (index_repo g rp listing)"
  have i: "indexed ?w = int (length (filter (\<lambda>v. classify g v = Indexed) ?vs))"
    and s: "skipped ?w = int (length (filter (\<lambda>v. is_skipped (classify g v)) ?vs))"
    and e: "errors ?w = int (length (filter (\<lambda>v. classify g v = ReadError) ?vs))"
    using index_repo_tally [of g rp listing] by (simp_all add: tally_def)
  have "indexed ?w + skipped ?w + errors ?w = int (length ?vs)"
    unfolding i s e using outcome_partition [of g ?vs] by linarith
  with i s e show ?thesis
    by (simp add: skipped_by_reason)
qed

theorem metrics_partition_witness:
  "indexed (snd (index_repo ext_guess ''/r''
      (Some [File ''a.txt'' (Inr ''hello''), File ''b.png'' (Inr ''x''),
             Dir ''node_modules'' [File ''c.txt'' (Inr ''ignored'')],
             Dir ''sub'' [File ''bad'' (Inl ''boom''), File ''y'' (Inr ''yy'')]]))) = 2
   \<and> skipped (snd (index_repo ext_guess ''/r''
      (Some [File ''a.txt'' (Inr ''hello''), File ''b.png'' (Inr ''x''),
             Dir ''node_modules'' [File ''c.txt'' (Inr ''ignored'')],
             Dir ''sub'' [File ''bad'' (Inl ''boom''), File ''y'' (Inr ''yy'')]]))) = 1
   \<and> errors (snd (index_repo ext_guess ''/r''
      (Some [File ''a.txt'' (Inr ''hello''), File ''b.png'' (Inr ''x''),
             Dir ''node_modules'' [File ''c.txt'' (Inr ''ignored'')],
             Dir ''sub'' [File ''bad'' (Inl ''boom''), File ''y'' (Inr ''yy'')]]))) = 1
   \<and> length (files_visited ''/r''
      (Some [File ''a.txt'' (Inr ''hello''), File ''b.png'' (Inr ''x''),
             Dir ''node_modules'' [File ''c.txt'' (Inr ''ignored'')],
             Dir ''sub'' [File ''bad'' (Inl ''boom''), File ''y'' (Inr ''yy'')]])) = 4"
proof -
  let ?t = "Some [File ''a.txt'' (Inr ''hello''), File ''b.png'' (Inr ''x''),
             Dir ''node_modules'' [File ''c.txt'' (Inr ''ignored'')],
             Dir ''sub'' [File ''bad'' (Inl ''boom''), File ''y'' (Inr ''yy'')]]"
  have c: "length (filter (\<lambda>v. classify ext_guess v = Indexed) (files_visited ''/r'' ?t)) = 2"
    "length (filter (\<lambda>v. classify ext_guess v = Skipped Extension) (files_visited ''/r'' ?t)) = 1"
    "length (filter (\<lambda>v. classify ext_guess v = Skipped Filename) (files_visited ''/r'' ?t)) = 0"
    "length (filter (\<lambda>v. classify ext_guess v = Skipped Binary) (files_visited ''/r'' ?t)) = 0"
    "length (filter (\<lambda>v. classify ext_guess v = ReadError) (files_visited ''/r'' ?t)) = 1"
    "length (files_visited ''/r'' ?t) = 4"
    by code_simp+
  show ?thesis
    using metrics_partition [of ext_guess "''/r''" ?t]
    unfolding c by simp
qed

text \<open>
  C1 as stated fails: for a root holding one file whose read fails, \<open>indexed + skipped\<close>
  is 0 and one file was visited.
\<close>

theorem indexed_plus_skipped_counterexample:
  "indexed (snd (index_repo no_guess ''/r'' (Some [File ''bad'' (Inl ''boom'')])))
     + skipped (snd (index_repo no_guess ''/r'' (Some [File ''bad'' (Inl ''boom'')])))
   \<noteq> int (length (files_visited ''/r'' (Some [File ''bad'' (Inl ''boom'')])))"
  by (simp add: index_repo_def walk.simps prune_dirs_def dirs_of_def index_file_def
      should_skip_file_eq skip_reason_def read_text_file_Inl log_info_eq no_guess_def
      suffix_def pname_def pjoin_def lower_def SKIP_EXTS_def SKIP_FILES_def Let_def
      files_visited_def visited.simps)

text \<open>
  C2. The skip checks run in the order extension, exact name, guessed content type; the
  first that matches decides, the later ones are not consulted; a skip adds exactly one
  to \<open>skipped\<close> and appends exactly one record, whose message names the reason; a file
  that no check matches leaves the state as it was.
\<close>

theorem should_skip_file_order:
  "should_skip_file g fp w =
     (case skip_reason g fp of
        None \<Rightarrow> (False, w)
      | Some r \<Rightarrow>
          (True, w\<lparr>skipped := skipped w + 1, records := records w @ [skip_event r fp]\<rparr>))
   \<and> skip_reason g fp =
       (if lower (suffix (pname fp)) \<in> SKIP_EXTS then Some Extension
        else if pname fp \<in> SKIP_FILES then Some Filename
        else if fst (is_binary_file g fp w) then Some Binary else None)"
  by (auto simp add: should_skip_file_eq skip_reason_def is_binary_file_fst split: option.splits)

theorem should_skip_file_order_witness:
  "should_skip_file ext_guess (''/r'', [''a.PNG'']) w0 =
     (True, w0\<lparr>skipped := 1, records := [skip_event Extension (''/r'', [''a.PNG''])]\<rparr>)
   \<and> should_skip_file ext_guess (''/r'', [''.gitignore'']) w0 =
     (True, w0\<lparr>skipped := 1, records := [skip_event Filename (''/r'', [''.gitignore''])]\<rparr>)
   \<and> should_skip_file ext_guess (''/r'', [''a.json'']) w0 =
     (True, w0\<lparr>skipped := 1, records := [skip_event Binary (''/r'', [''a.json''])]\<rparr>)
   \<and> should_skip_file ext_guess (''/r'', [''a.txt'']) w0 = (False, w0)"
proof -
  have r: "skip_reason ext_guess (''/r'', [''a.PNG'']) = Some Extension"
    "skip_reason ext_guess (''/r'', [''.gitignore'']) = Some Filename"
    "skip_reason ext_guess (''/r'', [''a.json'']) = Some Binary"
    "skip_reason ext_guess (''/r'', [''a.txt'']) = None"
    by code_simp+
  show ?thesis
    using should_skip_file_order [of ext_guess "(''/r'', [''a.PNG''])" w0]
      should_skip_file_order [of ext_guess "(''/r'', [''.gitignore''])" w0]
      should_skip_file_order [of ext_guess "(''/r'', [''a.json''])" w0]
      should_skip_file_order [of ext_guess "(''/r'', [''a.txt''])" w0]
    by (simp add: r w0_def)
qed

text \<open>
  C8. A file that reaches the content-type check (its extension and its name are not
  excluded) is skipped as binary exactly when a media type is guessed for it and that
  type does not start with \<open>text\<close>; when no type is guessed it is not skipped.
\<close>

theorem is_binary_file_iff:
  "lower (suffix (pname fp)) \<notin> SKIP_EXTS \<Longrightarrow> pname fp \<notin> SKIP_FILES \<Longrightarrow>
   fst (should_skip_file g fp w) = (\<exists>m. g (pstr fp) = Some m \<and> \<not> startswith m ''text'')
   \<and> fst (is_binary_file g fp w) = (\<exists>m. g (pstr fp) = Some m \<and> \<not> startswith m ''text'')
   \<and> (g (pstr fp) = None \<longrightarrow>
        \<not> fst (is_binary_file g fp w) \<and> \<not> fst (should_skip_file g fp w))"
  by (auto simp add: should_skip_file_def is_binary_file_def split: option.splits)

theorem is_binary_file_iff_witness:
  "lower (suffix (pname (''/r'', [''a.json'']))) \<notin> SKIP_EXTS
   \<and> pname (''/r'', [''a.json'']) \<notin> SKIP_FILES
   \<and> fst (should_skip_file ext_guess (''/r'', [''a.json'']) w0)
   \<and> fst (is_binary_file ext_guess (''/r'', [''a.json'']) w0)
   \<and> lower (suffix (pname (''/r'', [''Makefile'']))) \<notin> SKIP_EXTS
   \<and> pname (''/r'', [''Makefile'']) \<notin> SKIP_FILES
   \<and> ext_guess (pstr (''/r'', [''Makefile''])) = None
   \<and> \<not> fst (is_binary_file ext_guess (''/r'', [''Makefile'']) w0)
   \<and> \<not> fst (should_skip_file ext_guess (''/r'', [''Makefile'']) w0)"
proof -
  have a: "lower (suffix (pname (''/r'', [''a.json'']))) \<notin> SKIP_EXTS"
    by code_simp
  have b: "pname (''/r'', [''a.json'']) \<notin> SKIP_FILES"
    by (simp add: pname_def SKIP_FILES_def)
  have c: "lower (suffix (pname (''/r'', [''Makefile'']))) \<notin> SKIP_EXTS"
    by code_simp
  have d: "pname (''/r'', [''Makefile'']) \<notin> SKIP_FILES"
    by (simp add: pname_def SKIP_FILES_def)
  have e: "ext_guess (pstr (''/r'', [''Makefile''])) = None"
    by code_simp
  have f: "ext_guess (pstr (''/r'', [''a.json''])) = Some ''application/json''"
    by code_simp
  show ?thesis
    using a b c d e f is_binary_file_iff [OF a b, of ext_guess w0]
      is_binary_file_iff [OF c d, of ext_guess w0]
    by (simp add: startswith_def)
qed

text \<open>
  C10. A base name that starts with a dot and holds no other dot has the empty
  extension, which is not an excluded extension: such a file is skipped exactly when
  its name is an excluded name or the content-type check says binary.
\<close>

theorem dotfile_extension_empty:
  "CHR ''.'' \<notin> set rest \<Longrightarrow> pname fp = CHR ''.'' # rest \<Longrightarrow>
   suffix (pname fp) = []
   \<and> lower (suffix (pname fp)) \<notin> SKIP_EXTS
   \<and> skip_reason g fp \<noteq> Some Extension
   \<and> fst (should_skip_file g fp w) = (pname fp \<in> SKIP_FILES \<or> fst (is_binary_file g fp w))"
  by (auto simp add: suffix_dotfile lower_def SKIP_EXTS_def should_skip_file_def
      skip_reason_def split: option.splits prod.splits bool.splits)

theorem dotfile_extension_empty_witness:
  "CHR ''.'' \<notin> set ''png'' \<and> pname (''/r'', [''.png'']) = CHR ''.'' # ''png''
   \<and> suffix ''.png'' = []
   \<and> \<not> fst (should_skip_file no_guess (''/r'', [''.png'']) w0)
   \<and> fst (should_skip_file ext_guess (''/r'', [''.gitignore'']) w0)"
proof -
  have a: "CHR ''.'' \<notin> set ''png''" by simp
  have b: "pname (''/r'', [''.png'']) = CHR ''.'' # ''png''" by (simp add: pname_def)
  have c: "CHR ''.'' \<notin> set ''gitignore''" by simp
  have d: "pname (''/r'', [''.gitignore'']) = CHR ''.'' # ''gitignore''" by (simp add: pname_def)
  show ?thesis
    using a b dotfile_extension_empty [OF a b, of no_guess w0]
      dotfile_extension_empty [OF c d, of ext_guess w0]
    by (simp add: pname_def SKIP_FILES_def is_binary_file_def no_guess_def)
qed

text \<open>
  C3. With a limit \<open>max_chars\<close> (a count of characters, 5000 at the program's only call):
  a text longer than the limit is stored as its first \<open>max_chars\<close> characters followed
  by the marker, so the stored length is \<open>max_chars\<close> plus the marker's length and the
  first \<open>max_chars\<close> characters are those of the text, and one record at level INFO with
  the message "Truncating large file" is emitted; a text not longer than the limit is
  stored as it is and nothing is emitted.
\<close>

theorem read_text_file_truncation:
  "0 \<le> max_chars \<Longrightarrow>
   (int (length content) > max_chars \<longrightarrow>
      read_text_file fp (Inr content) w max_chars =
        (Some (take (nat max_chars) content @ marker),
         w\<lparr>records := records w @ [truncating_event fp]\<rparr>)
      \<and> length (take (nat max_chars) content @ marker) = nat max_chars + length marker
      \<and> take (nat max_chars) (take (nat max_chars) content @ marker) =
          take (nat max_chars) content)
   \<and> (int (length content) \<le> max_chars \<longrightarrow>
        read_text_file fp (Inr content) w max_chars = (Some content, w))
   \<and> marker = [CHR ''\<newline>'', CHR ''.'', CHR ''.'', CHR ''.''] @ ''[truncated]''
   \<and> levelno (truncating_event fp) = INFO"
  by (auto simp add: read_text_file_def slice_to_def log_info_eq truncating_event_def
      marker_def)

theorem read_text_file_truncation_witness:
  "(0::int) \<le> 3 \<and> int (length ''abcdef'') > 3 \<and> int (length ''ab'') \<le> 3
   \<and> read_text_file (''/r'', [''f'']) (Inr ''abcdef'') w0 3 =
       (Some (''abc'' @ marker), w0\<lparr>records := [truncating_event (''/r'', [''f''])]\<rparr>)
   \<and> length (''abc'' @ marker) = 3 + length marker
   \<and> read_text_file (''/r'', [''f'']) (Inr ''ab'') w0 3 = (Some ''ab'', w0)"
proof -
  have h: "(0::int) \<le> 3" by simp
  show ?thesis
    using read_text_file_truncation [OF h, of "''abcdef''" "(''/r'', [''f''])" w0]
      read_text_file_truncation [OF h, of "''ab''" "(''/r'', [''f''])" w0]
    by (simp add: w0_def)
qed

text \<open>
  C4. When reading a file fails, the reader returns no content, adds exactly one to
  \<open>errors\<close> and emits one record at level WARNING that carries the path and the string
  of the error; \<open>indexed\<close> and \<open>skipped\<close> stay as they were, nothing is appended to the
  file index, and the loop goes on to the next file from that state.
\<close>

theorem read_failure_recovered:
  "read_text_file fp (Inl e) w max_chars =
     (None, w\<lparr>errors := errors w + 1, records := records w @ [unreadable_event fp e]\<rparr>)
   \<and> unreadable_event fp e =
       \<lparr>levelno = WARNING, msg = ''Unreadable file'', rname = ''repo_indexer'',
        funcName = ''log_warning'',
        extra = [(''file_path'', JStr (pstr fp)), (''error'', JStr e)]\<rparr>
   \<and> (skip_reason g (pjoin root n) = None \<longrightarrow>
        index_file g root (n, Inl e) (w, fi) =
          (w\<lparr>errors := errors w + 1,
             records := records w @ [unreadable_event (pjoin root n) e]\<rparr>, fi)
        \<and> index_files g root ((n, Inl e) # fs) (w, fi) =
            index_files g root fs
              (w\<lparr>errors := errors w + 1,
                 records := records w @ [unreadable_event (pjoin root n) e]\<rparr>, fi))"
  by (simp add: read_text_file_Inl unreadable_event_def index_file_def should_skip_file_eq
      Let_def)

theorem read_failure_recovered_witness:
  "skip_reason no_guess (pjoin (''/r'', []) ''bad'') = None
   \<and> index_files no_guess (''/r'', []) [(''bad'', Inl ''boom''), (''ok'', Inr ''hi'')] (w0, []) =
       (w0\<lparr>indexed := 1, errors := 1,
           records := [unreadable_event (''/r'', [''bad'']) ''boom'',
             \<lparr>levelno = INFO, msg = ''Indexed file'', rname = ''repo_indexer'',
              funcName = ''log_info'',
              extra = [(''file_path'', JStr ''/r/ok''), (''file_name'', JStr ''ok''),
                       (''file_rel_path'', JStr ''ok'')]\<rparr>]\<rparr>,
        [''### ok'' @ [CHR ''\<newline>''] @ ''hi''])"
proof -
  have a: "skip_reason no_guess (pjoin (''/r'', []) ''bad'') = None"
    by code_simp
  have b: "skip_reason no_guess (''/r'', [''ok'']) = None"
    "skip_reason no_guess (''/r'', [''bad'']) = None"
    by code_simp+
  show ?thesis
    using a read_failure_recovered [of "(''/r'', [''bad''])" "''boom''" w0 5000 no_guess
        "(''/r'', [])" "''bad''" "[]" "[(''ok'', Inr ''hi'')]"]
    by (simp add: b index_file_def should_skip_file_eq read_text_file_Inr stored_def
        log_info_eq section_of_def rel_str_def pjoin_def pstr_def join2_def w0_def Let_def)
qed

text \<open>
  C7. The document is the join, with a single newline between consecutive sections and
  none before the first or after the last, of the sections of the files that were read,
  in traversal order; the section of a file is \<open>### \<close>, its path relative to the root, a
  newline and its content, truncated when longer than 5000 characters; \<open>char_count\<close> is
  the length of the document.
\<close>

theorem document_sections:
  "fst (index_repo g rp listing) =
     join [CHR ''\<newline>'']
       (map section_for (filter (\<lambda>v. classify g v = Indexed) (files_visited rp listing)))
   \<and> char_count (snd (index_repo g rp listing)) =
       Some (int (length (fst (index_repo g rp listing))))
   \<and> section_for ((rp, cs), Inr c) =
       ''### '' @ rel_str (rp, cs) @ [CHR ''\<newline>'']
         @ (if length c > 5000 then take 5000 c @ marker else c)
   \<and> rel_str (rp, d # ds) = join ''/'' (d # ds)
   \<and> join sep [] = [] \<and> join sep [x] = x
   \<and> join sep (x # y # ys) = x @ sep @ join sep (y # ys)"
  using index_repo_tally [of g rp listing]
  by (simp add: tally_def sections_def section_for_def stored_def rel_str_def)

theorem document_sections_witness:
  "fst (index_repo ext_guess ''/r''
      (Some [File ''a.txt'' (Inr ''hello''), File ''b.png'' (Inr ''x''),
             Dir ''node_modules'' [File ''c.txt'' (Inr ''ignored'')],
             Dir ''sub'' [File ''bad'' (Inl ''boom''), File ''y'' (Inr ''yy'')]])) =
     ''### a.txt'' @ [CHR ''\<newline>''] @ ''hello'' @ [CHR ''\<newline>'']
       @ ''### sub/y'' @ [CHR ''\<newline>''] @ ''yy''
   \<and> char_count (snd (index_repo ext_guess ''/r''
      (Some [File ''a.txt'' (Inr ''hello''), File ''b.png'' (Inr ''x''),
             Dir ''node_modules'' [File ''c.txt'' (Inr ''ignored'')],
             Dir ''sub'' [File ''bad'' (Inl ''boom''), File ''y'' (Inr ''yy'')]]))) = Some 28"
proof -
  have v: "map section_for (filter (\<lambda>v. classify ext_guess v = Indexed)
      (files_visited ''/r''
        (Some [File ''a.txt'' (Inr ''hello''), File ''b.png'' (Inr ''x''),
             Dir ''node_modules'' [File ''c.txt'' (Inr ''ignored'')],
             Dir ''sub'' [File ''bad'' (Inl ''boom''), File ''y'' (Inr ''yy'')]]))) =
     [''### a.txt'' @ [CHR ''\<newline>''] @ ''hello'', ''### sub/y'' @ [CHR ''\<newline>''] @ ''yy'']"
    by code_simp
  show ?thesis
    using document_sections [of ext_guess "''/r''"
        "Some [File ''a.txt'' (Inr ''hello''), File ''b.png'' (Inr ''x''),
             Dir ''node_modules'' [File ''c.txt'' (Inr ''ignored'')],
             Dir ''sub'' [File ''bad'' (Inl ''boom''), File ''y'' (Inr ''yy'')]]"]
    unfolding v by simp
qed



text \<open>
  C5 (as amended). A failure to list a directory does not end the run: the walk passes
  over that directory without a record and without touching a counter, exactly as if
  the directory were empty, and the run returns its document; when the root itself
  cannot be listed the run returns the empty document with all counters zero and the
  start and end records only.
\<close>

theorem unlistable_directory_passed_over:
  "walk g root (es1 @ Unlistable n # es2) st = walk g root (es1 @ Dir n [] # es2) st
   \<and> index_repo g rp (Some (es1 @ Unlistable n # es2)) =
       index_repo g rp (Some (es1 @ Dir n [] # es2))
   \<and> fst (index_repo g rp None) = []
   \<and> indexed (snd (index_repo g rp None)) = 0
   \<and> skipped (snd (index_repo g rp None)) = 0
   \<and> errors (snd (index_repo g rp None)) = 0
   \<and> map msg (records (snd (index_repo g rp None))) =
       [''Indexing repository'', ''Indexing complete'']"
  by (simp add: index_repo_def walk_unlistable log_info_eq)

theorem unlistable_directory_passed_over_witness:
  "index_repo no_guess ''/r'' (Some ([] @ Unlistable ''locked'' # [File ''a'' (Inr ''hi'')])) =
     index_repo no_guess ''/r'' (Some ([] @ Dir ''locked'' [] # [File ''a'' (Inr ''hi'')]))
   \<and> fst (index_repo no_guess ''/r'' None) = []"
  using unlistable_directory_passed_over [of no_guess "(''/r'', [])" "[]" "''locked''"
      "[File ''a'' (Inr ''hi'')]" "(w0, [])" "''/r''"]
  by simp

text \<open>
  C5 as stated fails: with an unlistable directory beside a readable file, the run
  completes and returns the document holding that file's section.
\<close>

theorem enumeration_failure_counterexample:
  "fst (index_repo no_guess ''/r'' (Some [Unlistable ''locked'', File ''a'' (Inr ''hi'')])) =
     ''### a'' @ [CHR ''\<newline>''] @ ''hi''
   \<and> indexed (snd (index_repo no_guess ''/r''
        (Some [Unlistable ''locked'', File ''a'' (Inr ''hi'')]))) = 1
   \<and> map msg (records (snd (index_repo no_guess ''/r''
        (Some [Unlistable ''locked'', File ''a'' (Inr ''hi'')])))) =
       [''Indexing repository'', ''Indexed file'', ''Indexing complete'']"
  by code_simp

text \<open>
  C9. Every record a run emits is formatted with the run's trace id under \<open>trace_id\<close>
  (the one value the formatter is given for the whole run), with its level's name under
  \<open>severity_text\<close> and, under \<open>severity_number\<close>, the number the mapping DEBUG 5, INFO 9,
  WARNING 13, ERROR 17, CRITICAL 21, otherwise 1 gives that name; the formatter's number
  for any level is the mapping's number for the level's name; a key among the keyword
  arguments takes the caller's value in the formatted record, also when a base field
  has the same name, and a key that is not among them keeps the base field.
\<close>

theorem log_record_fields:
  "(\<forall>r \<in> set (records (snd (index_repo g rp listing))).
      format tid now r ''trace_id'' = Some (JStr tid)
      \<and> format tid now r ''severity_text'' = Some (JStr (levelname (levelno r)))
      \<and> format tid now r ''severity_number'' =
          Some (JInt (severity_of_text (levelname (levelno r)))))
   \<and> map_severity l = severity_of_text (levelname l)
   \<and> (map_of (extra r') k = Some v \<longrightarrow> format tid now r' k = Some v)
   \<and> (map_of (extra r') k = None \<longrightarrow>
        format tid now r' k = map_of (base_fields tid now r') k)"
  using apr_index_repo [of g rp listing]
  by (auto simp add: all_program_records_def list_all_iff program_record_format
      map_severity_text format_override format_base)

theorem log_record_fields_witness:
  "\<lparr>levelno = INFO, msg = ''Indexing repository'', rname = ''repo_indexer'',
     funcName = ''log_info'',
     extra = [(''event_name'', JStr ''repo_scan_start''), (''file_path'', JStr ''/r'')]\<rparr>
     \<in> set (records (snd (index_repo no_guess ''/r'' None)))
   \<and> format ''id-1'' ''now''
       \<lparr>levelno = INFO, msg = ''Indexing repository'', rname = ''repo_indexer'',
        funcName = ''log_info'',
        extra = [(''event_name'', JStr ''repo_scan_start''), (''file_path'', JStr ''/r'')]\<rparr>
       ''trace_id'' = Some (JStr ''id-1'')
   \<and> format ''id-1'' ''now''
       \<lparr>levelno = INFO, msg = ''Indexing repository'', rname = ''repo_indexer'',
        funcName = ''log_info'',
        extra = [(''event_name'', JStr ''repo_scan_start''), (''file_path'', JStr ''/r'')]\<rparr>
       ''severity_number'' = Some (JInt 9)
   \<and> map_severity WARNING = 13
   \<and> map_of (extra \<lparr>levelno = WARNING, msg = ''m'', rname = ''repo_indexer'',
        funcName = ''log_warning'', extra = [(''trace_id'', JStr ''other'')]\<rparr>) ''trace_id''
       = Some (JStr ''other'')
   \<and> format ''id-1'' ''now'' \<lparr>levelno = WARNING, msg = ''m'', rname = ''repo_indexer'',
        funcName = ''log_warning'', extra = [(''trace_id'', JStr ''other'')]\<rparr> ''trace_id''
       = Some (JStr ''other'')
   \<and> map_of (extra \<lparr>levelno = WARNING, msg = ''m'', rname = ''repo_indexer'',
        funcName = ''log_warning'', extra = [(''trace_id'', JStr ''other'')]\<rparr>) ''message''
       = None
   \<and> format ''id-1'' ''now'' \<lparr>levelno = WARNING, msg = ''m'', rname = ''repo_indexer'',
        funcName = ''log_warning'', extra = [(''trace_id'', JStr ''other'')]\<rparr> ''message''
       = Some (JStr ''m'')"
proof -
  let ?r0 = "\<lparr>levelno = INFO, msg = ''Indexing repository'', rname = ''repo_indexer'',
     funcName = ''log_info'',
     extra = [(''event_name'', JStr ''repo_scan_start''), (''file_path'', JStr ''/r'')]\<rparr>"
  let ?r1 = "\<lparr>levelno = WARNING, msg = ''m'', rname = ''repo_indexer'',
        funcName = ''log_warning'', extra = [(''trace_id'', JStr ''other'')]\<rparr>"
  have m: "?r0 \<in> set (records (snd (index_repo no_guess ''/r'' None)))"
    by (simp add: index_repo_def log_info_eq)
  have a: "map_of (extra ?r1) ''trace_id'' = Some (JStr ''other'')" by simp
  have b: "map_of (extra ?r1) ''message'' = None" by simp
  note t1 = log_record_fields [of no_guess "''/r''" None "''id-1''" "''now''" WARNING ?r1
      "''trace_id''" "JStr ''other''"]
  note t2 = log_record_fields [of no_guess "''/r''" None "''id-1''" "''now''" WARNING ?r1
      "''message''" "JStr ''m''"]
  from t1 have q: "\<forall>r \<in> set (records (snd (index_repo no_guess ''/r'' None))).
      format ''id-1'' ''now'' r ''trace_id'' = Some (JStr ''id-1'')
      \<and> format ''id-1'' ''now'' r ''severity_text'' = Some (JStr (levelname (levelno r)))
      \<and> format ''id-1'' ''now'' r ''severity_number'' =
          Some (JInt (severity_of_text (levelname (levelno r))))"
    by (rule conjunct1)
  from q m have c: "format ''id-1'' ''now'' ?r0 ''trace_id'' = Some (JStr ''id-1'')
      \<and> format ''id-1'' ''now'' ?r0 ''severity_text'' = Some (JStr (levelname (levelno ?r0)))
      \<and> format ''id-1'' ''now'' ?r0 ''severity_number'' =
          Some (JInt (severity_of_text (levelname (levelno ?r0))))"
    by (rule bspec)
  have d: "severity_of_text (levelname INFO) = 9" "severity_of_text (levelname WARNING) = 13"
    by (simp_all add: severity_of_text_def levelname_def INFO_def WARNING_def ERROR_def
        CRITICAL_def)
  from t1 a have e: "format ''id-1'' ''now'' ?r1 ''trace_id'' = Some (JStr ''other'')"
    by blast
  from t2 b have f: "format ''id-1'' ''now'' ?r1 ''message'' =
      map_of (base_fields ''id-1'' ''now'' ?r1) ''message''"
    by blast
  from t1 have g: "map_severity WARNING = severity_of_text (levelname WARNING)"
    by blast
  from m a b c d e f g show ?thesis
    by (simp add: base_fields_def)
qed

end
